theory Spec2Isabelle
  imports Complex_Main "HOL-Library.Word"
begin

section \<open>The MLEM reconstruction wrapper (mlem/mlem_reconstruct.py)\<close>

text \<open>
  The module is a Python class \<open>MLEMReconstructor\<close> around a native library. The class
  keeps the configuration, validates the arguments of a reconstruction, hands flat arrays
  to the library function \<open>MLEM_TOF_Reco\<close> and rebuilds a 3D array from the flat result;
  \<open>read_image\<close> reloads a stored image. The embedding below follows the three methods
  statement by statement. What Python does besides returning a value is explicit: an
  exception is a value of \<open>py_error\<close>, printing appends a line to the world's output, the
  files are a component of the world, and the calls made to the library are recorded.
\<close>

subsection \<open>Scalars, errors and the world\<close>

text \<open>
  Voxel values are single-precision floats throughout the code (\<open>astype('float32')\<close>,
  \<open>struct\<close> format \<open>'f'\<close>, \<open>c_float\<close>). The wrapper never computes with them, it only
  moves them, so a voxel value is its IEEE-754 bit pattern: \<open>0.0\<close> is the pattern 0 and
  \<open>1.0\<close> is \<open>0x3F800000\<close>. The physical quantities of the configuration and the LOR
  coordinates are only passed through; they are reals.
\<close>

type_synonym byte = "8 word"
type_synonym float32 = "32 word"

definition f_zero :: float32 where
  "f_zero = 0"

definition f_one :: float32 where
  "f_one = 0x3F800000"

datatype py_error =
    ValueError
  | IndexError
  | ZeroDivisionError
  | StructError
  | SystemExit int

datatype node = RegularFile "byte list" | Directory

type_synonym filesystem = "string \<Rightarrow> node option"

text \<open>
  The arguments of one call of the library function \<open>MLEM_TOF_Reco\<close>, in the order of the
  call in \<open>reconstruct\<close>.
\<close>

record engine_args =
  arg_niterations :: int
  arg_TOF :: bool
  arg_TOF_resolution :: real
  arg_img_size_xy :: real
  arg_img_size_z :: real
  arg_img_nvoxels_xy :: int
  arg_img_nvoxels_z :: int
  arg_ncoinc :: nat
  arg_lor_x1 :: "real list"
  arg_lor_y1 :: "real list"
  arg_lor_z1 :: "real list"
  arg_lor_t1 :: "real list"
  arg_lor_x2 :: "real list"
  arg_lor_y2 :: "real list"
  arg_lor_z2 :: "real list"
  arg_lor_t2 :: "real list"
  arg_smat :: "float32 list"
  arg_prefix :: string
  arg_save_every :: int

text \<open>
  The library is not part of the module: it is a parameter of the model. A call gets the
  arguments and the files (the library writes its checkpoints) and gives back the memory
  behind the returned float pointer, read by offset, and the files afterwards.
\<close>

type_synonym engine = "engine_args \<Rightarrow> filesystem \<Rightarrow> (nat \<Rightarrow> float32) \<times> filesystem"

record world =
  files :: filesystem
  stdout :: "string list"
  stderr :: "string list"
  engine_calls :: "engine_args list"

definition print :: "string \<Rightarrow> world \<Rightarrow> world" where
  "print s w = w\<lparr>stdout := stdout w @ [s]\<rparr>"

definition print_stderr :: "string \<Rightarrow> world \<Rightarrow> world" where
  "print_stderr s w = w\<lparr>stderr := stderr w @ [s]\<rparr>"

subsection \<open>The pieces of Python and of its libraries that the module uses\<close>

text \<open>\<open>str.format\<close> of an integer: its decimal digits, with a sign when negative.\<close>

fun str_nat :: "nat \<Rightarrow> string" where
  "str_nat n =
     (if n < 10 then [''0123456789'' ! n]
      else str_nat (n div 10) @ [''0123456789'' ! (n mod 10)])"

declare str_nat.simps [simp del]

definition str_int :: "int \<Rightarrow> string" where
  "str_int i = (if i < 0 then CHR ''-'' # str_nat (nat (- i)) else str_nat (nat i))"

text \<open>\<open>str.split(sep)\<close> for a one-character separator: the pieces between separators.\<close>

fun split :: "char \<Rightarrow> string \<Rightarrow> string list" where
  "split c [] = [[]]"
| "split c (x # xs) =
     (if x = c then [] # split c xs
      else (case split c xs of
              [] \<Rightarrow> [[x]]
            | p # ps \<Rightarrow> (x # p) # ps))"

text \<open>
  \<open>os.path\<close>: a path resolves to a node or to nothing. The empty path resolves to
  nothing on every system (\<open>stat("")\<close> fails), whatever the files are.
\<close>

definition os_stat :: "filesystem \<Rightarrow> string \<Rightarrow> node option" where
  "os_stat fs p = (if p = [] then None else fs p)"

definition path_exists :: "filesystem \<Rightarrow> string \<Rightarrow> bool" where
  "path_exists fs p = (case os_stat fs p of None \<Rightarrow> False | Some n \<Rightarrow> True)"

definition path_isfile :: "filesystem \<Rightarrow> string \<Rightarrow> bool" where
  "path_isfile fs p =
     (case os_stat fs p of
        Some (RegularFile d) \<Rightarrow> True
      | Some Directory \<Rightarrow> False
      | None \<Rightarrow> False)"

definition file_read :: "filesystem \<Rightarrow> string \<Rightarrow> byte list" where
  "file_read fs p =
     (case os_stat fs p of
        Some (RegularFile d) \<Rightarrow> d
      | Some Directory \<Rightarrow> []
      | None \<Rightarrow> [])"

text \<open>
  \<open>struct.unpack_from('f' * n, data)\<close>: \<open>n\<close> floats of four bytes each, least significant
  byte first; it raises when the buffer is shorter than \<open>4 * n\<close> bytes.
\<close>

definition float_of_bytes :: "byte list \<Rightarrow> float32" where
  "float_of_bytes bs = word_rcat (rev bs)"

fun unpack_floats :: "nat \<Rightarrow> byte list \<Rightarrow> float32 list" where
  "unpack_floats 0 bs = []"
| "unpack_floats (Suc n) bs = float_of_bytes (take 4 bs) # unpack_floats n (drop 4 bs)"

definition unpack_from :: "nat \<Rightarrow> byte list \<Rightarrow> py_error + float32 list" where
  "unpack_from n bs = (if length bs < 4 * n then Inl StructError else Inr (unpack_floats n bs))"

subsection \<open>numpy arrays\<close>

text \<open>
  An array is its shape, its element type and its elements in row-major order (the order
  of \<open>ravel()\<close>: the last index varies fastest). An array holds as many elements as its
  shape says.
\<close>

datatype dtype = Float32 | Float64

record ndarray =
  shape :: "nat list"
  dtype :: dtype
  cdata :: "float32 list"

definition wf_ndarray :: "ndarray \<Rightarrow> bool" where
  "wf_ndarray a = (length (cdata a) = prod_list (shape a))"

text \<open>\<open>np.zeros(dims)\<close> and \<open>np.ones(dims)\<close>: a negative dimension raises \<open>ValueError\<close>.\<close>

definition np_full :: "float32 \<Rightarrow> int list \<Rightarrow> py_error + ndarray" where
  "np_full v dims =
     (if list_ex (\<lambda>d. d < 0) dims then Inl ValueError
      else Inr \<lparr>shape = map nat dims, dtype = Float64,
                cdata = replicate (prod_list (map nat dims)) v\<rparr>)"

definition np_zeros :: "int list \<Rightarrow> py_error + ndarray" where
  "np_zeros dims = np_full f_zero dims"

definition np_ones :: "int list \<Rightarrow> py_error + ndarray" where
  "np_ones dims = np_full f_one dims"

definition astype :: "dtype \<Rightarrow> ndarray \<Rightarrow> ndarray" where
  "astype t a = a\<lparr>dtype := t\<rparr>"

text \<open>The row-major offset of a multi-index.\<close>

fun c_offset :: "nat list \<Rightarrow> nat list \<Rightarrow> nat \<Rightarrow> nat" where
  "c_offset (d # ds) (i # is) acc = c_offset ds is (acc * d + i)"
| "c_offset ds is acc = acc"

fun in_bounds :: "nat list \<Rightarrow> nat list \<Rightarrow> bool" where
  "in_bounds [] [] = True"
| "in_bounds (d # ds) (i # is) = (i < d \<and> in_bounds ds is)"
| "in_bounds ds is = False"

text \<open>
  \<open>a[i,j,k]\<close> and \<open>a[i,j,k] = v\<close> with non-negative indices, one per axis: an index out
  of its axis raises \<open>IndexError\<close>.
\<close>

definition getitem :: "ndarray \<Rightarrow> nat list \<Rightarrow> py_error + float32" where
  "getitem a idx =
     (if in_bounds (shape a) idx then Inr (cdata a ! c_offset (shape a) idx 0)
      else Inl IndexError)"

definition setitem :: "ndarray \<Rightarrow> nat list \<Rightarrow> float32 \<Rightarrow> py_error + ndarray" where
  "setitem a idx v =
     (if in_bounds (shape a) idx
      then Inr (a\<lparr>cdata := (cdata a)[c_offset (shape a) idx 0 := v]\<rparr>)
      else Inl IndexError)"

text \<open>
  \<open>a.flatten('F')\<close>: the elements in column-major order, the first index varying
  fastest. \<open>f_indices\<close> lists the multi-indices of a shape in that order.
\<close>

fun f_indices :: "nat list \<Rightarrow> nat list list" where
  "f_indices [] = [[]]"
| "f_indices (d # ds) = concat (map (\<lambda>rest. map (\<lambda>i. i # rest) [0..<d]) (f_indices ds))"

definition flatten_F :: "ndarray \<Rightarrow> float32 list" where
  "flatten_F a = map (\<lambda>idx. cdata a ! c_offset (shape a) idx 0) (f_indices (shape a))"

subsection \<open>The class\<close>

record reconstructor =
  prefix :: string
  niterations :: int
  save_every :: int
  TOF :: bool
  TOF_resolution :: real
  img_size_xy :: real
  img_size_z :: real
  img_nvoxels_xy :: int
  img_nvoxels_z :: int
  smatrix :: ndarray

text \<open>
  \<open>__init__\<close>. The arguments are in the order of the signature; \<open>smatrix\<close> is \<open>None\<close> or
  an array. The last statement loads the library, which the model takes as given.
\<close>

definition init ::
  "string \<Rightarrow> int \<Rightarrow> int \<Rightarrow> bool \<Rightarrow> real \<Rightarrow> real \<Rightarrow> real \<Rightarrow> int \<Rightarrow> int \<Rightarrow> ndarray option \<Rightarrow>
   world \<Rightarrow> (py_error + reconstructor) \<times> world" where
  "init prefix0 niterations0 save_every0 TOF0 TOF_resolution0 img_size_xy0 img_size_z0
        img_nvoxels_xy0 img_nvoxels_z0 smatrix0 w =
     (let self = \<lambda>m. \<lparr>prefix = prefix0, niterations = niterations0,
                       save_every = save_every0, TOF = True,
                       TOF_resolution = TOF_resolution0, img_size_xy = img_size_xy0,
                       img_size_z = img_size_z0, img_nvoxels_xy = img_nvoxels_xy0,
                       img_nvoxels_z = img_nvoxels_z0, smatrix = m\<rparr>
      in case smatrix0 of
           None \<Rightarrow>
             (case np_ones [img_nvoxels_xy0, img_nvoxels_xy0, img_nvoxels_z0] of
                Inl e \<Rightarrow> (Inl e, w)
              | Inr ones \<Rightarrow>
                  (Inr (self (astype Float32 ones)),
                   print ''Sensitivity matrix not specified: assuming a matrix of 1s.'' w))
         | Some m \<Rightarrow> (Inr (self m), w))"

text \<open>
  The loop that fills the 3D image from the flat array, shared by \<open>read_image\<close> and
  \<open>reconstruct\<close>:
  \<^verbatim>\<open>for ivox,w in enumerate(s_arr):
      i = int(ivox % xdim)
      j = int(ivox / xdim) % ydim
      k = int(ivox / (xdim*ydim))
      img_arr[i,j,k] = w\<close>
  \<open>ivox / xdim\<close> is Python's true division and \<open>int\<close> truncates its result; on the
  non-negative integers below \<open>2^53\<close> that index voxels this is the integer quotient,
  which is what the model writes. A zero divisor raises \<open>ZeroDivisionError\<close>.
\<close>

definition voxel_of :: "nat \<Rightarrow> nat \<Rightarrow> nat \<Rightarrow> nat list" where
  "voxel_of xdim ydim ivox = [ivox mod xdim, (ivox div xdim) mod ydim, ivox div (xdim * ydim)]"

fun fill_image :: "nat \<Rightarrow> nat \<Rightarrow> (nat \<times> float32) list \<Rightarrow> ndarray \<Rightarrow> py_error + ndarray" where
  "fill_image xdim ydim [] img_arr = Inr img_arr"
| "fill_image xdim ydim ((ivox, v) # rest) img_arr =
     (if xdim = 0 \<or> ydim = 0 then Inl ZeroDivisionError
      else (case setitem img_arr (voxel_of xdim ydim ivox) v of
              Inl e \<Rightarrow> Inl e
            | Inr img_arr' \<Rightarrow> fill_image xdim ydim rest img_arr'))"

text \<open>\<open>read_image\<close>: the image stored as \<open>(prefix)(niter).raw\<close>.\<close>

definition read_image :: "reconstructor \<Rightarrow> int \<Rightarrow> world \<Rightarrow> (py_error + ndarray) \<times> world" where
  "read_image self niter w =
     (let xdim = img_nvoxels_xy self;
          ydim = img_nvoxels_xy self;
          zdim = img_nvoxels_z self
      in case np_zeros [xdim, ydim, zdim] of
           Inl e \<Rightarrow> (Inl e, w)
         | Inr img_arr \<Rightarrow>
             (let fpath = prefix self @ str_int niter @ ''.raw''
              in if path_isfile (files w) fpath then
                   (let fdata = file_read (files w) fpath;
                        w1 = print (''Read '' @ str_nat (length fdata) @ '' bytes'') w;
                        nvoxels = xdim * ydim * zdim
                    in if int (length fdata) = nvoxels * 4 then
                         (case unpack_from (nat nvoxels) fdata of
                            Inl e \<Rightarrow> (Inl e, w1)
                          | Inr s_arr \<Rightarrow>
                              (case fill_image (nat xdim) (nat ydim) (enumerate 0 s_arr) img_arr of
                                 Inl e \<Rightarrow> (Inl e, w1)
                               | Inr img \<Rightarrow> (Inr img, w1)))
                       else
                         (Inr img_arr,
                          print (''ERROR: unexpected data length '' @ str_nat (length fdata)) w1))
                 else (Inr img_arr, print (''ERROR: file '' @ fpath @ '' not found'') w)))"

text \<open>
  \<open>reconstruct\<close>. First the directory of the prefix:
  \<^verbatim>\<open>folders = self.prefix.split('/')
  folder_path = ''
  for p in folders[:-1]:
      if p != '':
          folder_path += p
      folder_path += '/'\<close>
\<close>

fun folder_loop :: "string list \<Rightarrow> string \<Rightarrow> string" where
  "folder_loop [] folder_path = folder_path"
| "folder_loop (p # ps) folder_path =
     folder_loop ps ((if p \<noteq> [] then folder_path @ p else folder_path) @ ''/'')"

definition folder_path_of :: "string \<Rightarrow> string" where
  "folder_path_of pre = folder_loop (butlast (split CHR ''/'' pre)) []"

text \<open>
  The result of \<open>reconstruct\<close> is \<open>None\<close> or the image; \<open>sys.exit(1)\<close> raises
  \<open>SystemExit(1)\<close>, which ends the process with status 1 unless a caller catches it.
\<close>

definition reconstruct ::
  "engine \<Rightarrow> reconstructor \<Rightarrow> real list \<Rightarrow> real list \<Rightarrow> real list \<Rightarrow> real list \<Rightarrow>
   real list \<Rightarrow> real list \<Rightarrow> real list \<Rightarrow> real list \<Rightarrow> world \<Rightarrow>
   (py_error + ndarray option) \<times> world" where
  "reconstruct MLEM_TOF_Reco self lor_x1 lor_y1 lor_z1 lor_t1 lor_x2 lor_y2 lor_z2 lor_t2 w =
     (let folder_path = folder_path_of (prefix self)
      in if \<not> path_exists (files w) folder_path then
           (Inl (SystemExit 1),
            print_stderr (''Path '' @ folder_path @ '' doesn'' @ [CHR 0x27] @ ''t exists - exit job'') w)
         else
           (let ncoinc = length lor_x1
            in if length lor_y1 \<noteq> ncoinc \<or> length lor_z1 \<noteq> ncoinc
                  \<or> length lor_t1 \<noteq> ncoinc \<or> length lor_x2 \<noteq> ncoinc
                  \<or> length lor_y2 \<noteq> ncoinc \<or> length lor_z2 \<noteq> ncoinc
                  \<or> length lor_t2 \<noteq> ncoinc then
                 (Inr None, print ''ERROR: all LOR arrays must contain the same # of values'' w)
               else
                 (let xdim = img_nvoxels_xy self;
                      ydim = img_nvoxels_xy self;
                      zdim = img_nvoxels_z self;
                      nvoxels = xdim * ydim * zdim;
                      smat = flatten_F (smatrix self)
                  in if int (length smat) \<noteq> nvoxels then
                       (Inr None,
                        print (''ERROR: sensitivity matrix must have dimensions ['' @
                               str_int (img_nvoxels_xy self) @ '','' @
                               str_int (img_nvoxels_xy self) @ '','' @
                               str_int (img_nvoxels_z self) @ '']'') w)
                     else
                       (let args = \<lparr>arg_niterations = niterations self, arg_TOF = TOF self,
                                    arg_TOF_resolution = TOF_resolution self,
                                    arg_img_size_xy = img_size_xy self,
                                    arg_img_size_z = img_size_z self,
                                    arg_img_nvoxels_xy = img_nvoxels_xy self,
                                    arg_img_nvoxels_z = img_nvoxels_z self,
                                    arg_ncoinc = ncoinc,
                                    arg_lor_x1 = lor_x1, arg_lor_y1 = lor_y1,
                                    arg_lor_z1 = lor_z1, arg_lor_t1 = lor_t1,
                                    arg_lor_x2 = lor_x2, arg_lor_y2 = lor_y2,
                                    arg_lor_z2 = lor_z2, arg_lor_t2 = lor_t2,
                                    arg_smat = smat, arg_prefix = prefix self,
                                    arg_save_every = save_every self\<rparr>;
                            img = fst (MLEM_TOF_Reco args (files w));
                            w1 = w\<lparr>files := snd (MLEM_TOF_Reco args (files w)),
                                   engine_calls := engine_calls w @ [args]\<rparr>
                        in case np_zeros [xdim, ydim, zdim] of
                             Inl e \<Rightarrow> (Inl e, w1)
                           | Inr img_arr \<Rightarrow>
                               (let rimg = map img [0..<nat nvoxels]
                                in case fill_image (nat xdim) (nat ydim) (enumerate 0 rimg) img_arr of
                                     Inl e \<Rightarrow> (Inl e, w1)
                                   | Inr img3 \<Rightarrow> (Inr (Some img3), w1))))))"

text \<open>
  The layout of the flat image, from the docstring of the class: the voxels
  \<open>(x0,y0,z0), (x1,y0,z0) ... (xN,y0,z0), (x0,y1,z0) ...\<close>, that is \<open>x\<close> varies fastest,
  then \<open>y\<close>, then \<open>z\<close>. \<open>flat_index\<close> is the position of voxel \<open>[i, j, k]\<close> in it.
\<close>

definition flat_index :: "nat \<Rightarrow> nat \<Rightarrow> nat list \<Rightarrow> nat" where
  "flat_index xdim ydim idx =
     (case idx of [i, j, k] \<Rightarrow> i + j * xdim + k * xdim * ydim | _ \<Rightarrow> 0)"

subsection \<open>A concrete configuration\<close>

text \<open>
  A directory \<open>out/\<close> with three stored images for a grid of 2 x 2 x 3 voxels: iteration
  3 holds the values 1 to 12 (as bit patterns), iteration 4 is a file of one byte, and
  iteration 0 holds 48 zero bytes. The library of the example returns the offset plus one
  at every offset and leaves the files alone.
\<close>

definition ex_files :: filesystem where
  "ex_files =
     (\<lambda>p. if p = ''out/'' then Some Directory
          else if p = ''out/mlem3.raw''
            then Some (RegularFile (concat (map (\<lambda>b. [b, 0, 0, 0]) [1, 2, 3, 4, 5, 6, 7, 8, 9, 10, 11, 12])))
          else if p = ''out/mlem4.raw'' then Some (RegularFile [7])
          else if p = ''out/mlem0.raw'' then Some (RegularFile (replicate 48 0))
          else None)"

definition ex_world :: world where
  "ex_world = \<lparr>files = ex_files, stdout = [], stderr = [], engine_calls = []\<rparr>"

definition ex_engine :: engine where
  "ex_engine = (\<lambda>args fs. (\<lambda>n. word_of_nat (n + 1), fs))"

definition ex_smatrix :: ndarray where
  "ex_smatrix = \<lparr>shape = [2, 2, 3], dtype = Float32,
                 cdata = [1, 2, 3, 4, 5, 6, 7, 8, 9, 10, 11, 12]\<rparr>"

definition ex_self :: reconstructor where
  "ex_self = \<lparr>prefix = ''out/mlem'', niterations = 1, save_every = - 1, TOF = True,
              TOF_resolution = 200, img_size_xy = 180, img_size_z = 180,
              img_nvoxels_xy = 2, img_nvoxels_z = 3, smatrix = ex_smatrix\<rparr>"

text \<open>
  A sensitivity matrix with the 12 elements of the grid but of shape 3 x 2 x 2.
\<close>

definition ex_transposed :: ndarray where
  "ex_transposed = \<lparr>shape = [3, 2, 2], dtype = Float32,
                    cdata = [1, 2, 3, 4, 5, 6, 7, 8, 9, 10, 11, 12]\<rparr>"

section \<open>Properties\<close>

subsection \<open>The directory of the prefix\<close>

lemma split_no_sep: "c \<notin> set s \<Longrightarrow> split c s = [s]"
  by (induction s) auto

lemma folder_path_no_slash: "CHR ''/'' \<notin> set pre \<Longrightarrow> folder_path_of pre = []"
  by (simp add: folder_path_of_def split_no_sep)

lemma path_exists_empty: "\<not> path_exists fs []"
  by (simp add: path_exists_def os_stat_def)

lemma reconstruct_no_dir:
  "\<not> path_exists (files w) (folder_path_of (prefix self)) \<Longrightarrow>
   reconstruct eng self x1 y1 z1 t1 x2 y2 z2 t2 w =
     (Inl (SystemExit 1),
      print_stderr (''Path '' @ folder_path_of (prefix self) @
                    '' doesn'' @ [CHR 0x27] @ ''t exists - exit job'') w)"
  by (simp add: reconstruct_def)

text \<open>
  C9. A prefix without \<open>'/'\<close> (the default \<open>"mlem"\<close> is one) has the empty string as its
  directory, which never exists: \<open>reconstruct\<close> raises \<open>SystemExit(1)\<close> whatever the
  files and the LOR arrays are. Only the message on standard error is added to the world:
  nothing was validated, printed on standard output or handed to the library.
\<close>

theorem no_slash_prefix_exits:
  assumes "CHR ''/'' \<notin> set (prefix self)"
  shows "reconstruct eng self x1 y1 z1 t1 x2 y2 z2 t2 w =
           (Inl (SystemExit 1),
            w\<lparr>stderr := stderr w @ [''Path  doesn'' @ [CHR 0x27] @ ''t exists - exit job'']\<rparr>)"
  using assms reconstruct_no_dir [of w self eng x1 y1 z1 t1 x2 y2 z2 t2]
  by (simp add: folder_path_no_slash path_exists_empty print_stderr_def)

theorem no_slash_prefix_exits_default:
  "CHR ''/'' \<notin> set (prefix (ex_self\<lparr>prefix := ''mlem''\<rparr>)) \<and>
   reconstruct ex_engine (ex_self\<lparr>prefix := ''mlem''\<rparr>) [1] [2] [3] [4] [5] [6] [7] [8] ex_world =
     (Inl (SystemExit 1),
      ex_world\<lparr>stderr := stderr ex_world @ [''Path  doesn'' @ [CHR 0x27] @ ''t exists - exit job'']\<rparr>)"
proof -
  have h: "CHR ''/'' \<notin> set (prefix (ex_self\<lparr>prefix := ''mlem''\<rparr>))"
    by simp
  from no_slash_prefix_exits [OF h] h show ?thesis
    by blast
qed

subsection \<open>The TOF flag\<close>

lemma reconstruct_calls:
  "engine_calls (snd (reconstruct eng self x1 y1 z1 t1 x2 y2 z2 t2 w)) = engine_calls w \<or>
   (\<exists>a. engine_calls (snd (reconstruct eng self x1 y1 z1 t1 x2 y2 z2 t2 w)) = engine_calls w @ [a]
        \<and> arg_TOF a = TOF self \<and> arg_smat a = flatten_F (smatrix self))"
  by (simp add: reconstruct_def Let_def print_def print_stderr_def split: sum.splits)

lemma init_TOF: "fst (init pre n s tof res sxy sz nxy nz sm w) = Inr self \<Longrightarrow> TOF self = True"
  by (auto simp: init_def Let_def split: option.splits sum.splits)

text \<open>
  C1. The constructor does not store its \<open>TOF\<close> argument: it stores \<open>True\<close>
  (\<open>self.TOF = True\<close>). Whatever value is passed, the reconstructor it builds has
  \<open>TOF = True\<close>, and every call that \<open>reconstruct\<close> makes to the library passes \<open>True\<close>
  as the TOF flag. The concrete case below is the construction with \<open>TOF = False\<close>.
\<close>

theorem tof_argument_is_ignored:
  assumes "fst (init pre n s tof res sxy sz nxy nz sm w0) = Inr self"
  shows "TOF self = True \<and>
         list_all arg_TOF
           (drop (length (engine_calls w))
              (engine_calls (snd (reconstruct eng self x1 y1 z1 t1 x2 y2 z2 t2 w))))"
  using init_TOF [OF assms] reconstruct_calls [of eng self x1 y1 z1 t1 x2 y2 z2 t2 w]
  by auto

theorem tof_argument_is_ignored_at_False:
  "fst (init ''out/mlem'' 1 (- 1) False 200 180 180 1 1 None ex_world) =
     Inr (projr (fst (init ''out/mlem'' 1 (- 1) False 200 180 180 1 1 None ex_world))) \<and>
   TOF (projr (fst (init ''out/mlem'' 1 (- 1) False 200 180 180 1 1 None ex_world))) = True \<and>
   map arg_TOF (engine_calls (snd (reconstruct ex_engine
       (projr (fst (init ''out/mlem'' 1 (- 1) False 200 180 180 1 1 None ex_world)))
       [] [] [] [] [] [] [] [] ex_world))) = [True]"
proof -
  let ?self = "projr (fst (init ''out/mlem'' 1 (- 1) False 200 180 180 1 1 None ex_world))"
  have h: "fst (init ''out/mlem'' 1 (- 1) False 200 180 180 1 1 None ex_world) = Inr ?self"
    by code_simp
  have v: "map arg_TOF (engine_calls (snd (reconstruct ex_engine ?self
       [] [] [] [] [] [] [] [] ex_world))) = [True]"
    by code_simp
  from tof_argument_is_ignored [OF h, of ex_world ex_engine "[]" "[]" "[]" "[]" "[]" "[]" "[]" "[]"]
    h v show ?thesis by blast
qed

subsection \<open>Validation in \<open>reconstruct\<close>\<close>

text \<open>
  C3 (amended). When the directory of the prefix does not exist, \<open>reconstruct\<close> does not
  return a value to its caller: it prints a message on standard error and raises
  \<open>SystemExit(1)\<close>, which ends the process with status 1 unless it is caught. It does so
  before the library is called, and the files are left as they were (no directory is
  created).
\<close>

theorem missing_directory_exits:
  assumes "\<not> path_exists (files w) (folder_path_of (prefix self))"
  shows "fst (reconstruct eng self x1 y1 z1 t1 x2 y2 z2 t2 w) = Inl (SystemExit 1) \<and>
         files (snd (reconstruct eng self x1 y1 z1 t1 x2 y2 z2 t2 w)) = files w \<and>
         engine_calls (snd (reconstruct eng self x1 y1 z1 t1 x2 y2 z2 t2 w)) = engine_calls w \<and>
         stdout (snd (reconstruct eng self x1 y1 z1 t1 x2 y2 z2 t2 w)) = stdout w \<and>
         stderr (snd (reconstruct eng self x1 y1 z1 t1 x2 y2 z2 t2 w)) =
           stderr w @ [''Path '' @ folder_path_of (prefix self) @
                       '' doesn'' @ [CHR 0x27] @ ''t exists - exit job'']"
  by (simp add: reconstruct_no_dir [OF assms] print_stderr_def)

theorem missing_directory_exits_example:
  "\<not> path_exists (files ex_world) (folder_path_of (prefix (ex_self\<lparr>prefix := ''missing/mlem''\<rparr>))) \<and>
   fst (reconstruct ex_engine (ex_self\<lparr>prefix := ''missing/mlem''\<rparr>) [] [] [] [] [] [] [] [] ex_world)
     = Inl (SystemExit 1) \<and>
   files (snd (reconstruct ex_engine (ex_self\<lparr>prefix := ''missing/mlem''\<rparr>) [] [] [] [] [] [] [] [] ex_world))
     = files ex_world \<and>
   engine_calls (snd (reconstruct ex_engine (ex_self\<lparr>prefix := ''missing/mlem''\<rparr>) [] [] [] [] [] [] [] [] ex_world))
     = engine_calls ex_world"
proof -
  have h: "\<not> path_exists (files ex_world) (folder_path_of (prefix (ex_self\<lparr>prefix := ''missing/mlem''\<rparr>)))"
    by code_simp
  from missing_directory_exits [OF h] h show ?thesis
    by blast
qed

text \<open>
  C3 as stated fails: with the prefix \<open>missing/mlem\<close> and no directory \<open>missing/\<close> the
  outcome is the exception \<open>SystemExit(1)\<close>, not a returned value (a call that returns,
  with the prefix \<open>out/mlem\<close>, is on the right of the sum).
\<close>

theorem missing_directory_does_not_return:
  "\<not> path_exists (files ex_world) (folder_path_of ''missing/mlem'') \<and>
   \<not> isl (fst (reconstruct ex_engine ex_self [] [] [] [] [] [] [] [] ex_world)) \<and>
   fst (reconstruct ex_engine (ex_self\<lparr>prefix := ''missing/mlem''\<rparr>) [] [] [] [] [] [] [] [] ex_world)
     = Inl (SystemExit 1)"
  by code_simp

text \<open>
  C4 (amended). When the eight LOR arrays do not all have the length of the first one,
  the library is never called and the files are untouched. When the directory of the
  prefix exists, \<open>reconstruct\<close> prints
  \<open>ERROR: all LOR arrays must contain the same # of values\<close> and returns \<open>None\<close>. When
  it does not exist, the check of the directory comes first: the call raises
  \<open>SystemExit(1)\<close> with the message about the path on standard error, and the lengths
  are never looked at.
\<close>

theorem mismatched_lors_rejected:
  assumes "\<not> (length y1 = length x1 \<and> length z1 = length x1 \<and> length t1 = length x1 \<and>
              length x2 = length x1 \<and> length y2 = length x1 \<and> length z2 = length x1 \<and>
              length t2 = length x1)"
  shows "engine_calls (snd (reconstruct eng self x1 y1 z1 t1 x2 y2 z2 t2 w)) = engine_calls w \<and>
         files (snd (reconstruct eng self x1 y1 z1 t1 x2 y2 z2 t2 w)) = files w \<and>
         (if path_exists (files w) (folder_path_of (prefix self))
          then reconstruct eng self x1 y1 z1 t1 x2 y2 z2 t2 w =
                 (Inr None, print ''ERROR: all LOR arrays must contain the same # of values'' w)
          else reconstruct eng self x1 y1 z1 t1 x2 y2 z2 t2 w =
                 (Inl (SystemExit 1),
                  print_stderr (''Path '' @ folder_path_of (prefix self) @
                                '' doesn'' @ [CHR 0x27] @ ''t exists - exit job'') w))"
proof (cases "path_exists (files w) (folder_path_of (prefix self))")
  case True
  with assms have "reconstruct eng self x1 y1 z1 t1 x2 y2 z2 t2 w =
      (Inr None, print ''ERROR: all LOR arrays must contain the same # of values'' w)"
    by (auto simp: reconstruct_def)
  with True show ?thesis by (simp add: print_def)
next
  case False
  from reconstruct_no_dir [OF this, of eng x1 y1 z1 t1 x2 y2 z2 t2] False
  show ?thesis by (simp add: print_stderr_def)
qed

theorem mismatched_lors_rejected_example:
  "\<not> (length [2::real] = length [1::real, 1] \<and> length [3::real] = length [1::real, 1] \<and>
      length [4::real] = length [1::real, 1] \<and> length [5::real] = length [1::real, 1] \<and>
      length [6::real] = length [1::real, 1] \<and> length [7::real] = length [1::real, 1] \<and>
      length [8::real] = length [1::real, 1]) \<and>
   path_exists (files ex_world) (folder_path_of (prefix ex_self)) \<and>
   reconstruct ex_engine ex_self [1, 1] [2] [3] [4] [5] [6] [7] [8] ex_world =
     (Inr None, print ''ERROR: all LOR arrays must contain the same # of values'' ex_world) \<and>
   engine_calls (snd (reconstruct ex_engine ex_self [1, 1] [2] [3] [4] [5] [6] [7] [8] ex_world)) = []"
proof -
  have h: "\<not> (length [2::real] = length [1::real, 1] \<and> length [3::real] = length [1::real, 1] \<and>
      length [4::real] = length [1::real, 1] \<and> length [5::real] = length [1::real, 1] \<and>
      length [6::real] = length [1::real, 1] \<and> length [7::real] = length [1::real, 1] \<and>
      length [8::real] = length [1::real, 1])"
    by simp
  have p: "path_exists (files ex_world) (folder_path_of (prefix ex_self))"
    by code_simp
  have e: "engine_calls ex_world = []"
    by (simp add: ex_world_def)
  from mismatched_lors_rejected [OF h, of ex_engine ex_self ex_world] p e h show ?thesis
    by (simp add: print_def)
qed

text \<open>
  C4 as stated fails: with the default prefix \<open>mlem\<close>, whose directory is the empty
  string, a batch of unequal lengths does not get the error about the LOR arrays
  returned. The call raises \<open>SystemExit(1)\<close> and nothing is printed on standard output.
\<close>

theorem mismatched_lors_with_default_prefix_exit:
  "length [2::real] \<noteq> length [1::real, 1] \<and>
   fst (reconstruct ex_engine (ex_self\<lparr>prefix := ''mlem''\<rparr>) [1, 1] [2] [3] [4] [5] [6] [7] [8] ex_world)
     = Inl (SystemExit 1) \<and>
   stdout (snd (reconstruct ex_engine (ex_self\<lparr>prefix := ''mlem''\<rparr>)
                  [1, 1] [2] [3] [4] [5] [6] [7] [8] ex_world)) = [] \<and>
   stderr (snd (reconstruct ex_engine (ex_self\<lparr>prefix := ''mlem''\<rparr>)
                  [1, 1] [2] [3] [4] [5] [6] [7] [8] ex_world)) =
     [''Path  doesn'' @ [CHR 0x27] @ ''t exists - exit job'']"
  by code_simp

subsection \<open>The constructor's sensitivity matrix\<close>

text \<open>
  C8. Without a sensitivity matrix and with non-negative voxel counts (\<open>np.ones\<close> raises
  on a negative one), the constructor stores a \<open>float32\<close> array of shape
  \<open>(img_nvoxels_xy, img_nvoxels_xy, img_nvoxels_z)\<close> whose elements are all \<open>1.0\<close> and
  prints one notice; a sensitivity matrix that is supplied is stored as it is, and nothing
  is printed.
\<close>

theorem default_sensitivity_is_ones:
  assumes "0 \<le> nxy" "0 \<le> nz"
  shows "(\<exists>self. init pre n s tof res sxy sz nxy nz None w =
                  (Inr self, print ''Sensitivity matrix not specified: assuming a matrix of 1s.'' w) \<and>
                smatrix self = \<lparr>shape = [nat nxy, nat nxy, nat nz], dtype = Float32,
                                cdata = replicate (nat nxy * nat nxy * nat nz) f_one\<rparr>) \<and>
         (\<exists>self. init pre n s tof res sxy sz nxy nz (Some m) w = (Inr self, w) \<and> smatrix self = m)"
  using assms by (simp add: init_def np_ones_def np_full_def astype_def)

theorem default_sensitivity_is_ones_example:
  "(0::int) \<le> 2 \<and> (0::int) \<le> 3 \<and>
   (\<exists>self. init ''mlem'' 1 (- 1) True 200 180 180 2 3 None ex_world =
            (Inr self, print ''Sensitivity matrix not specified: assuming a matrix of 1s.'' ex_world) \<and>
          smatrix self = \<lparr>shape = [2, 2, 3], dtype = Float32, cdata = replicate 12 f_one\<rparr>) \<and>
   (\<exists>self. init ''mlem'' 1 (- 1) True 200 180 180 2 3 (Some ex_smatrix) ex_world = (Inr self, ex_world) \<and>
          smatrix self = ex_smatrix)"
proof -
  have h: "(0::int) \<le> 2" "(0::int) \<le> 3"
    by simp_all
  from default_sensitivity_is_ones [OF h, of "''mlem''" 1 "- 1" True 200 180 180 ex_world ex_smatrix]
  show ?thesis by simp
qed

subsection \<open>Index arithmetic\<close>

lemma voxel_of_flat:
  assumes "i < x" "j < y"
  shows "voxel_of x y (i + j * x + k * x * y) = [i, j, k]"
proof -
  have e: "i + j * x + k * x * y = i + x * (j + y * k)"
    by (simp add: algebra_simps)
  have a: "(i + x * (j + y * k)) mod x = i"
    using assms by simp
  have b: "(i + x * (j + y * k)) div x = j + y * k"
    using assms by simp
  have c: "(i + x * (j + y * k)) div (x * y) = k"
    using assms by (simp add: div_mult2_eq)
  show ?thesis
    unfolding voxel_of_def e a b c using assms by simp
qed

lemma flat_voxel_of:
  assumes "0 < x" "0 < y"
  shows "flat_index x y (voxel_of x y n) = n"
proof -
  have a: "(n div x) mod y + y * (n div x div y) = n div x" by simp
  have b: "n mod x + x * (n div x) = n" by simp
  have "n mod x + (n div x) mod y * x + n div x div y * x * y
        = n mod x + x * ((n div x) mod y + y * (n div x div y))"
    by (simp only: algebra_simps)
  also have "\<dots> = n" by (simp only: a b)
  finally show ?thesis by (simp add: flat_index_def voxel_of_def div_mult2_eq)
qed

lemma voxel_of_in_bounds:
  assumes "n < x * y * z"
  shows "in_bounds [x, y, z] (voxel_of x y n)"
proof -
  from assms have x: "0 < x" and y: "0 < y" by (auto intro: Nat.gr0I)
  have "n div (x * y) < z"
    using assms x y by (simp add: less_mult_imp_div_less mult.commute)
  then show ?thesis using x y by (simp add: voxel_of_def)
qed

subsection \<open>Offsets and the order of \<open>flatten('F')\<close>\<close>

lemma in_bounds_length: "in_bounds ds is \<Longrightarrow> length is = length ds"
  by (induction ds "is" rule: in_bounds.induct) auto

lemma c_offset_acc:
  "length is = length ds \<Longrightarrow> c_offset ds is acc = acc * prod_list ds + c_offset ds is 0"
proof (induction ds arbitrary: "is" acc)
  case (Cons d ds)
  then obtain i is' where i: "is = i # is'" "length is' = length ds"
    by (cases "is") auto
  from Cons.IH [OF i(2), of "acc * d + i"] Cons.IH [OF i(2), of i] i(1)
  show ?case by (simp add: algebra_simps)
qed simp

lemma c_offset_bound: "in_bounds ds is \<Longrightarrow> c_offset ds is 0 < prod_list ds"
proof (induction ds "is" rule: in_bounds.induct)
  case (2 d ds i "is")
  then have l: "length is = length ds" and b: "c_offset ds is 0 < prod_list ds" and i: "i < d"
    by (auto dest: in_bounds_length)
  have "c_offset (d # ds) (i # is) 0 = i * prod_list ds + c_offset ds is 0"
    using c_offset_acc [OF l, of i] by simp
  also have "\<dots> < i * prod_list ds + prod_list ds" using b by simp
  also have "\<dots> = Suc i * prod_list ds" by simp
  also have "\<dots> \<le> d * prod_list ds" using i by (intro mult_le_mono1) simp
  finally show ?case by simp
qed simp_all

lemma c_offset_inj:
  "in_bounds ds is \<Longrightarrow> in_bounds ds js \<Longrightarrow> c_offset ds is 0 = c_offset ds js 0 \<Longrightarrow> is = js"
proof (induction ds "is" arbitrary: js rule: in_bounds.induct)
  case (2 d ds i "is")
  then obtain j js' where js: "js = j # js'" "j < d" "in_bounds ds js'"
    by (cases js) auto
  from 2 have li: "length is = length ds" by (auto dest: in_bounds_length)
  from js have lj: "length js' = length ds" by (auto dest: in_bounds_length)
  have bi: "c_offset ds is 0 < prod_list ds" using 2 by (auto intro: c_offset_bound)
  have bj: "c_offset ds js' 0 < prod_list ds" using js by (auto intro: c_offset_bound)
  have e: "i * prod_list ds + c_offset ds is 0 = j * prod_list ds + c_offset ds js' 0"
    using 2(4) js c_offset_acc [OF li, of i] c_offset_acc [OF lj, of j] by simp
  have "(i * prod_list ds + c_offset ds is 0) div prod_list ds = i"
    using bi by simp
  moreover have "(j * prod_list ds + c_offset ds js' 0) div prod_list ds = j"
    using bj by simp
  ultimately have ij: "i = j" using e by simp
  with e have "c_offset ds is 0 = c_offset ds js' 0" by simp
  with 2 js have "is = js'" by auto
  with ij js show ?case by simp
next
  case 1
  then show ?case by (cases js) auto
qed simp_all

lemma concat_map_nth:
  "i < d \<Longrightarrow> q < length rs \<Longrightarrow>
   concat (map (\<lambda>r. map (g r) [0..<d]) rs) ! (i + q * d) = g (rs ! q) i"
proof (induction rs arbitrary: q)
  case (Cons r rs)
  show ?case
  proof (cases q)
    case 0
    with Cons.prems show ?thesis by (simp add: nth_append)
  next
    case (Suc q')
    with Cons.prems have "q' < length rs" by simp
    from Cons.IH [OF Cons.prems(1) this] Suc show ?thesis
      by (simp add: nth_append)
  qed
qed simp

lemma length_concat_map: "length (concat (map (\<lambda>r. map (g r) [0..<d]) rs)) = length rs * d"
  by (induction rs) auto

lemma length_f_indices: "length (f_indices ds) = prod_list ds"
  by (induction ds) (auto simp: length_concat_map)

lemma length_flatten_F: "length (flatten_F a) = prod_list (shape a)"
  by (simp add: flatten_F_def length_f_indices)

lemma f_indices_3:
  assumes "i < x" "j < y" "k < z"
  shows "f_indices [x, y, z] ! (i + j * x + k * x * y) = [i, j, k]"
proof -
  have one: "f_indices [z] ! k = [k]"
    using assms by simp
  have two: "f_indices [y, z] ! (j + k * y) = [j, k]"
    using concat_map_nth [of j y k "f_indices [z]" "\<lambda>rest i. i # rest"] assms one
    by (simp add: length_f_indices)
  have "j + k * y < length (f_indices [y, z])"
  proof -
    have "j + k * y < y + k * y" using assms by simp
    also have "\<dots> = Suc k * y" by simp
    also have "\<dots> \<le> z * y" using assms by (intro mult_le_mono1) simp
    finally show ?thesis by (simp del: f_indices.simps add: length_f_indices mult.commute)
  qed
  from concat_map_nth [OF assms(1) this, of "\<lambda>rest i. i # rest"] two
  show ?thesis by (simp add: algebra_simps)
qed


lemma in_bounds_3:
  "in_bounds [x, y, z] idx \<Longrightarrow> \<exists>i j k. idx = [i, j, k] \<and> i < x \<and> j < y \<and> k < z"
proof -
  assume a: "in_bounds [x, y, z] idx"
  then have "length idx = 3" by (auto dest: in_bounds_length)
  then obtain i j k where "idx = [i, j, k]"
    by (auto simp: length_Suc_conv numeral_3_eq_3)
  with a show ?thesis by simp
qed

lemma flat_index_bound:
  assumes "i < x" "j < y" "k < z"
  shows "i + j * x + k * x * y < x * y * (z::nat)"
proof -
  have "i + j * x < x + j * x" using assms by simp
  also have "\<dots> = Suc j * x" by simp
  also have "\<dots> \<le> y * x" using assms by (intro mult_le_mono1) simp
  finally have "i + j * x + k * x * y < x * y + k * (x * y)" by (simp add: mult.commute mult.assoc)
  also have "\<dots> = Suc k * (x * y)" by simp
  also have "\<dots> \<le> z * (x * y)" using assms by (intro mult_le_mono1) simp
  finally show ?thesis by (simp add: mult.commute)
qed

subsection \<open>The loop that fills the image\<close>

lemma setitem_in_bounds:
  "in_bounds (shape a) idx \<Longrightarrow>
   setitem a idx v = Inr (a\<lparr>cdata := (cdata a)[c_offset (shape a) idx 0 := v]\<rparr>)"
  by (simp add: setitem_def)

lemma getitem_setitem:
  assumes "wf_ndarray a" "in_bounds (shape a) idx" "in_bounds (shape a) idx'"
  shows "getitem (a\<lparr>cdata := (cdata a)[c_offset (shape a) idx 0 := v]\<rparr>) idx' =
           (if idx' = idx then Inr v else getitem a idx')"
proof (cases "idx' = idx")
  case True
  from assms have "c_offset (shape a) idx 0 < length (cdata a)"
    by (simp add: wf_ndarray_def c_offset_bound)
  with True assms show ?thesis by (simp add: getitem_def)
next
  case False
  with assms have "c_offset (shape a) idx' 0 \<noteq> c_offset (shape a) idx 0"
    by (auto dest: c_offset_inj)
  with False assms show ?thesis by (simp add: getitem_def)
qed

lemma fill_image_enumerate:
  assumes "shape img = [x, y, z]" "wf_ndarray img" "n + length ws \<le> x * y * z"
  shows "\<exists>img'. fill_image x y (enumerate n ws) img = Inr img' \<and>
           shape img' = [x, y, z] \<and> dtype img' = dtype img \<and> wf_ndarray img' \<and>
           (\<forall>idx. in_bounds [x, y, z] idx \<longrightarrow>
              getitem img' idx =
                (if n \<le> flat_index x y idx \<and> flat_index x y idx < n + length ws
                 then Inr (ws ! (flat_index x y idx - n)) else getitem img idx))"
  using assms
proof (induction ws arbitrary: n img)
  case Nil
  then show ?case by auto
next
  case (Cons v ws)
  from Cons.prems have n: "n < x * y * z" by simp
  then have x: "0 < x" and y: "0 < y" by (auto intro: Nat.gr0I)
  let ?p = "voxel_of x y n"
  let ?img1 = "img\<lparr>cdata := (cdata img)[c_offset (shape img) ?p 0 := v]\<rparr>"
  have pb: "in_bounds (shape img) ?p"
    using n Cons.prems(1) by (simp add: voxel_of_in_bounds)
  have s1: "setitem img ?p v = Inr ?img1"
    using pb by (rule setitem_in_bounds)
  have "shape ?img1 = [x, y, z]" "wf_ndarray ?img1" "Suc n + length ws \<le> x * y * z"
    using Cons.prems by (simp_all add: wf_ndarray_def)
  from Cons.IH [OF this] obtain img' where
    f: "fill_image x y (enumerate (Suc n) ws) ?img1 = Inr img'" and
    sh: "shape img' = [x, y, z]" and dt: "dtype img' = dtype ?img1" and wf: "wf_ndarray img'" and
    g: "\<And>idx. in_bounds [x, y, z] idx \<Longrightarrow>
          getitem img' idx =
            (if Suc n \<le> flat_index x y idx \<and> flat_index x y idx < Suc n + length ws
             then Inr (ws ! (flat_index x y idx - Suc n)) else getitem ?img1 idx)"
    by blast
  have run: "fill_image x y (enumerate n (v # ws)) img = Inr img'"
    using x y s1 f by simp
  have get: "getitem img' idx =
       (if n \<le> flat_index x y idx \<and> flat_index x y idx < n + length (v # ws)
        then Inr ((v # ws) ! (flat_index x y idx - n)) else getitem img idx)"
    if b: "in_bounds [x, y, z] idx" for idx
  proof -
    from in_bounds_3 [OF b] obtain i j k where
      idx: "idx = [i, j, k]" "i < x" "j < y" "k < z" by blast
    have rt: "voxel_of x y (flat_index x y idx) = idx"
      using idx by (simp add: flat_index_def voxel_of_flat)
    have g1: "getitem ?img1 idx = (if idx = ?p then Inr v else getitem img idx)"
      using getitem_setitem [OF Cons.prems(2) pb, of idx v] b Cons.prems(1) by simp
    show ?thesis
    proof (cases "flat_index x y idx = n")
      case True
      with rt have "idx = ?p" by simp
      with g [OF b] g1 True show ?thesis by simp
    next
      case False
      have "idx \<noteq> ?p"
      proof
        assume "idx = ?p"
        then have "flat_index x y idx = n" using flat_voxel_of [OF x y, of n] by simp
        with False show False by simp
      qed
      with g [OF b] g1 False show ?thesis
        by (auto simp: nth_Cons' Suc_diff_Suc)
    qed
  qed
  from run sh dt wf get show ?case by auto
qed

lemma fill_image_all:
  assumes "shape img = [x, y, z]" "wf_ndarray img" "length ws = x * y * z"
  shows "\<exists>img'. fill_image x y (enumerate 0 ws) img = Inr img' \<and>
           shape img' = [x, y, z] \<and> dtype img' = dtype img \<and>
           (\<forall>i j k. i < x \<and> j < y \<and> k < z \<longrightarrow>
              getitem img' [i, j, k] = Inr (ws ! (i + j * x + k * x * y)))"
proof -
  from assms have "0 + length ws \<le> x * y * z" by simp
  from fill_image_enumerate [OF assms(1,2) this] obtain img' where
    f: "fill_image x y (enumerate 0 ws) img = Inr img'" "shape img' = [x, y, z]"
       "dtype img' = dtype img" and
    g: "\<And>idx. in_bounds [x, y, z] idx \<Longrightarrow>
          getitem img' idx =
            (if 0 \<le> flat_index x y idx \<and> flat_index x y idx < 0 + length ws
             then Inr (ws ! (flat_index x y idx - 0)) else getitem img idx)"
    by blast
  have "getitem img' [i, j, k] = Inr (ws ! (i + j * x + k * x * y))"
    if "i < x" "j < y" "k < z" for i j k
  proof -
    have "in_bounds [x, y, z] [i, j, k]" using that by simp
    from g [OF this] flat_index_bound [OF that] assms(3)
    show ?thesis by (simp add: flat_index_def)
  qed
  with f show ?thesis by blast
qed

subsection \<open>The outcomes of \<open>read_image\<close> and \<open>reconstruct\<close>\<close>

lemma np_zeros_nat:
  "np_zeros [int x, int y, int z] =
     Inr \<lparr>shape = [x, y, z], dtype = Float64, cdata = replicate (x * y * z) f_zero\<rparr>"
  by (simp add: np_zeros_def np_full_def)

lemma length_unpack_floats: "length (unpack_floats n bs) = n"
  by (induction n arbitrary: bs) auto

lemma unpack_floats_nth:
  "m < n \<Longrightarrow> unpack_floats n bs ! m = float_of_bytes (take 4 (drop (4 * m) bs))"
proof (induction n arbitrary: bs m)
  case (Suc n)
  show ?case
  proof (cases m)
    case 0
    then show ?thesis by simp
  next
    case (Suc m')
    with Suc.prems have "m' < n" by simp
    from Suc.IH [OF this, of "drop 4 bs"] Suc show ?thesis
      by (simp add: add.commute)
  qed
qed simp

lemma read_image_absent:
  assumes "img_nvoxels_xy self = int nx" "img_nvoxels_z self = int nz"
    and "\<not> path_isfile (files w) (prefix self @ str_int niter @ ''.raw'')"
  shows "read_image self niter w =
           (Inr \<lparr>shape = [nx, nx, nz], dtype = Float64, cdata = replicate (nx * nx * nz) f_zero\<rparr>,
            print (''ERROR: file '' @ prefix self @ str_int niter @ ''.raw'' @ '' not found'') w)"
  using assms by (simp add: read_image_def np_zeros_nat)

lemma read_image_bad_length:
  assumes "img_nvoxels_xy self = int nx" "img_nvoxels_z self = int nz"
    and "path_isfile (files w) (prefix self @ str_int niter @ ''.raw'')"
    and "length (file_read (files w) (prefix self @ str_int niter @ ''.raw'')) \<noteq> nx * nx * nz * 4"
  shows "read_image self niter w =
           (Inr \<lparr>shape = [nx, nx, nz], dtype = Float64, cdata = replicate (nx * nx * nz) f_zero\<rparr>,
            print (''ERROR: unexpected data length '' @
                   str_nat (length (file_read (files w) (prefix self @ str_int niter @ ''.raw''))))
              (print (''Read '' @
                      str_nat (length (file_read (files w) (prefix self @ str_int niter @ ''.raw''))) @
                      '' bytes'') w))"
proof -
  let ?n = "length (file_read (files w) (prefix self @ str_int niter @ ''.raw''))"
  have "int ?n \<noteq> int (nx * nx * nz * 4)"
    using assms(4) by (metis of_nat_eq_iff)
  then have "int ?n \<noteq> int nx * int nx * int nz * 4" by simp
  with assms(1-3) show ?thesis
    by (simp add: read_image_def np_zeros_nat Let_def)
qed

lemma read_image_valid:
  assumes "img_nvoxels_xy self = int nx" "img_nvoxels_z self = int nz"
    and "path_isfile (files w) (prefix self @ str_int niter @ ''.raw'')"
    and "length (file_read (files w) (prefix self @ str_int niter @ ''.raw'')) = nx * nx * nz * 4"
  shows "\<exists>img. read_image self niter w =
           (Inr img,
            print (''Read '' @
                   str_nat (length (file_read (files w) (prefix self @ str_int niter @ ''.raw''))) @
                   '' bytes'') w) \<and>
           shape img = [nx, nx, nz] \<and> dtype img = Float64 \<and>
           (\<forall>i j k. i < nx \<and> j < nx \<and> k < nz \<longrightarrow>
              getitem img [i, j, k] =
                Inr (float_of_bytes (take 4 (drop (4 * (i + j * nx + k * nx * nx))
                       (file_read (files w) (prefix self @ str_int niter @ ''.raw''))))))"
proof -
  let ?fdata = "file_read (files w) (prefix self @ str_int niter @ ''.raw'')"
  let ?N = "nx * nx * nz"
  let ?z = "\<lparr>shape = [nx, nx, nz], dtype = Float64, cdata = replicate ?N f_zero\<rparr>"
  let ?s = "unpack_floats ?N ?fdata"
  have len: "int (length ?fdata) = int nx * int nx * int nz * 4"
    using assms(4) by simp
  have nn: "nat (int nx * int nx * int nz) = ?N"
    by (simp add: nat_mult_distrib)
  have un: "unpack_from ?N ?fdata = Inr ?s"
    using assms(4) by (simp add: unpack_from_def)
  have "shape ?z = [nx, nx, nz]" "wf_ndarray ?z" "length ?s = nx * nx * nz"
    by (simp_all add: wf_ndarray_def length_unpack_floats)
  from fill_image_all [OF this] obtain img where
    f: "fill_image nx nx (enumerate 0 ?s) ?z = Inr img" and
    sh: "shape img = [nx, nx, nz]" "dtype img = Float64" and
    g: "\<And>i j k. i < nx \<Longrightarrow> j < nx \<Longrightarrow> k < nz \<Longrightarrow>
          getitem img [i, j, k] = Inr (?s ! (i + j * nx + k * nx * nx))"
    by auto
  have r: "read_image self niter w =
      (Inr img, print (''Read '' @ str_nat (length ?fdata) @ '' bytes'') w)"
    using assms(1-3) len nn un f by (simp add: read_image_def np_zeros_nat Let_def)
  have "getitem img [i, j, k] = Inr (float_of_bytes (take 4 (drop (4 * (i + j * nx + k * nx * nx)) ?fdata)))"
    if "i < nx" "j < nx" "k < nz" for i j k
    using g [OF that] flat_index_bound [OF that] by (simp add: unpack_floats_nth)
  with r sh show ?thesis by blast
qed

lemma reconstruct_valid:
  assumes "img_nvoxels_xy self = int nx" "img_nvoxels_z self = int nz"
    and "path_exists (files w) (folder_path_of (prefix self))"
    and "length y1 = length x1 \<and> length z1 = length x1 \<and> length t1 = length x1 \<and>
         length x2 = length x1 \<and> length y2 = length x1 \<and> length z2 = length x1 \<and>
         length t2 = length x1"
    and "prod_list (shape (smatrix self)) = nx * nx * nz"
  shows "\<exists>a img. reconstruct eng self x1 y1 z1 t1 x2 y2 z2 t2 w =
           (Inr (Some img),
            w\<lparr>files := snd (eng a (files w)), engine_calls := engine_calls w @ [a]\<rparr>) \<and>
           arg_smat a = flatten_F (smatrix self) \<and>
           shape img = [nx, nx, nz] \<and> dtype img = Float64 \<and>
           (\<forall>i j k. i < nx \<and> j < nx \<and> k < nz \<longrightarrow>
              getitem img [i, j, k] = Inr (fst (eng a (files w)) (i + j * nx + k * nx * nx)))"
proof -
  let ?N = "nx * nx * nz"
  let ?a = "\<lparr>arg_niterations = niterations self, arg_TOF = TOF self,
             arg_TOF_resolution = TOF_resolution self, arg_img_size_xy = img_size_xy self,
             arg_img_size_z = img_size_z self, arg_img_nvoxels_xy = img_nvoxels_xy self,
             arg_img_nvoxels_z = img_nvoxels_z self, arg_ncoinc = length x1,
             arg_lor_x1 = x1, arg_lor_y1 = y1, arg_lor_z1 = z1, arg_lor_t1 = t1,
             arg_lor_x2 = x2, arg_lor_y2 = y2, arg_lor_z2 = z2, arg_lor_t2 = t2,
             arg_smat = flatten_F (smatrix self), arg_prefix = prefix self,
             arg_save_every = save_every self\<rparr>"
  let ?z = "\<lparr>shape = [nx, nx, nz], dtype = Float64, cdata = replicate ?N f_zero\<rparr>"
  let ?r = "map (fst (eng ?a (files w))) [0..<?N]"
  have sm: "int (length (flatten_F (smatrix self))) = int nx * int nx * int nz"
    using assms(5) by (simp add: length_flatten_F)
  have nn: "nat (int nx * int nx * int nz) = ?N"
    by (simp add: nat_mult_distrib)
  have "shape ?z = [nx, nx, nz]" "wf_ndarray ?z" "length ?r = nx * nx * nz"
    by (simp_all add: wf_ndarray_def)
  from fill_image_all [OF this] obtain img where
    f: "fill_image nx nx (enumerate 0 ?r) ?z = Inr img" and
    sh: "shape img = [nx, nx, nz]" "dtype img = Float64" and
    g: "\<And>i j k. i < nx \<Longrightarrow> j < nx \<Longrightarrow> k < nz \<Longrightarrow>
          getitem img [i, j, k] = Inr (?r ! (i + j * nx + k * nx * nx))"
    by auto
  have r: "reconstruct eng self x1 y1 z1 t1 x2 y2 z2 t2 w =
      (Inr (Some img), w\<lparr>files := snd (eng ?a (files w)), engine_calls := engine_calls w @ [?a]\<rparr>)"
    using assms(1-4) sm nn f by (simp add: reconstruct_def np_zeros_nat Let_def)
  have "getitem img [i, j, k] = Inr (fst (eng ?a (files w)) (i + j * nx + k * nx * nx))"
    if "i < nx" "j < nx" "k < nz" for i j k
    using g [OF that] flat_index_bound [OF that] by simp
  with r sh show ?thesis
    by (intro exI [of _ ?a] exI [of _ img]) simp
qed

lemma reconstruct_calls_sizes:
  assumes "path_exists (files w) (folder_path_of (prefix self))"
    and "length y1 = length x1 \<and> length z1 = length x1 \<and> length t1 = length x1 \<and>
         length x2 = length x1 \<and> length y2 = length x1 \<and> length z2 = length x1 \<and>
         length t2 = length x1"
    and "int (prod_list (shape (smatrix self))) =
           img_nvoxels_xy self * img_nvoxels_xy self * img_nvoxels_z self"
  shows "\<exists>a. engine_calls (snd (reconstruct eng self x1 y1 z1 t1 x2 y2 z2 t2 w)) =
               engine_calls w @ [a] \<and>
             arg_smat a = flatten_F (smatrix self)"
  using assms
  by (simp add: reconstruct_def Let_def length_flatten_F split: sum.splits)

lemma float_of_zero_bytes: "float_of_bytes (replicate 4 0) = f_zero"
  by code_simp

lemma unpack_floats_zero: "unpack_floats n (replicate (4 * n) 0) = replicate n f_zero"
proof (induction n)
  case (Suc n)
  have "take 4 (replicate (4 * Suc n) (0::byte)) = replicate 4 0"
    by (simp add: min_def)
  moreover have "drop 4 (replicate (4 * Suc n) (0::byte)) = replicate (4 * n) 0"
    by simp
  ultimately show ?case using Suc by (simp add: float_of_zero_bytes)
qed simp

lemma fill_image_same:
  assumes "shape img = [x, y, z]" "cdata img = replicate (x * y * z) c"
    and "list_all (\<lambda>(n, v). n < x * y * z \<and> v = c) ivs"
  shows "fill_image x y ivs img = Inr img"
  using assms(3)
proof (induction ivs)
  case (Cons iv ivs)
  obtain n v where iv: "iv = (n, v)" by (cases iv)
  with Cons.prems have n: "n < x * y * z" and v: "v = c" by simp_all
  from n have x: "0 < x" and y: "0 < y" by (auto intro: Nat.gr0I)
  have "in_bounds (shape img) (voxel_of x y n)"
    using n assms(1) by (simp add: voxel_of_in_bounds)
  then have "setitem img (voxel_of x y n) c =
      Inr (img\<lparr>cdata := (cdata img)[c_offset (shape img) (voxel_of x y n) 0 := c]\<rparr>)"
    by (rule setitem_in_bounds)
  moreover have "(cdata img)[c_offset (shape img) (voxel_of x y n) 0 := c] = cdata img"
    unfolding assms(2)
    by (cases "c_offset (shape img) (voxel_of x y n) 0 < x * y * z")
       (simp_all add: list_eq_iff_nth_eq nth_list_update)
  ultimately have "setitem img (voxel_of x y n) v = Inr img"
    using v by simp
  with Cons x y iv show ?case by simp
qed simp

lemma read_image_zero_file:
  assumes "img_nvoxels_xy self = int nx" "img_nvoxels_z self = int nz"
    and "path_isfile (files w) (prefix self @ str_int niter @ ''.raw'')"
    and "file_read (files w) (prefix self @ str_int niter @ ''.raw'') = replicate (4 * (nx * nx * nz)) 0"
  shows "fst (read_image self niter w) =
           Inr \<lparr>shape = [nx, nx, nz], dtype = Float64, cdata = replicate (nx * nx * nz) f_zero\<rparr>"
proof -
  let ?N = "nx * nx * nz"
  let ?z = "\<lparr>shape = [nx, nx, nz], dtype = Float64, cdata = replicate ?N f_zero\<rparr>"
  have len: "int (length (replicate (4 * ?N) (0::byte))) = int nx * int nx * int nz * 4"
    by simp
  have nn: "nat (int nx * int nx * int nz) = ?N"
    by (simp add: nat_mult_distrib)
  have un: "unpack_from ?N (replicate (4 * ?N) 0) = Inr (replicate ?N f_zero)"
    by (simp add: unpack_from_def unpack_floats_zero)
  have "list_all (\<lambda>(n, v). n < ?N \<and> v = f_zero) (enumerate 0 (replicate ?N f_zero))"
    by (auto simp: list_all_iff in_set_enumerate_eq)
  then have f: "fill_image nx nx (enumerate 0 (replicate ?N f_zero)) ?z = Inr ?z"
    by (intro fill_image_same [where z = nz]) simp_all
  show ?thesis
    using assms len nn un f by (simp add: read_image_def np_zeros_nat Let_def)
qed

subsection \<open>Files that \<open>read_image\<close> cannot use\<close>

text \<open>
  C2 (amended). When the stored file has another length than four bytes per voxel,
  \<open>read_image\<close> signals no error: it prints the number of bytes read and
  \<open>ERROR: unexpected data length\<close> on standard output and returns the image of zeros
  that it built first, of the shape of the grid. No value of the file reaches the image,
  so the image is never partially filled.
\<close>

theorem wrong_length_file_gives_zero_image:
  assumes "0 \<le> img_nvoxels_xy self" "0 \<le> img_nvoxels_z self"
    and "path_isfile (files w) (prefix self @ str_int niter @ ''.raw'')"
    and "int (length (file_read (files w) (prefix self @ str_int niter @ ''.raw''))) \<noteq>
           img_nvoxels_xy self * img_nvoxels_xy self * img_nvoxels_z self * 4"
  shows "read_image self niter w =
           (Inr \<lparr>shape = [nat (img_nvoxels_xy self), nat (img_nvoxels_xy self),
                          nat (img_nvoxels_z self)],
                 dtype = Float64,
                 cdata = replicate (nat (img_nvoxels_xy self) * nat (img_nvoxels_xy self) *
                                    nat (img_nvoxels_z self)) f_zero\<rparr>,
            print (''ERROR: unexpected data length '' @
                   str_nat (length (file_read (files w) (prefix self @ str_int niter @ ''.raw''))))
              (print (''Read '' @
                      str_nat (length (file_read (files w) (prefix self @ str_int niter @ ''.raw''))) @
                      '' bytes'') w))"
proof -
  let ?nx = "nat (img_nvoxels_xy self)" and ?nz = "nat (img_nvoxels_z self)"
  have d: "img_nvoxels_xy self = int ?nx" "img_nvoxels_z self = int ?nz"
    using assms(1,2) by simp_all
  have "length (file_read (files w) (prefix self @ str_int niter @ ''.raw'')) \<noteq> ?nx * ?nx * ?nz * 4"
  proof
    assume "length (file_read (files w) (prefix self @ str_int niter @ ''.raw'')) = ?nx * ?nx * ?nz * 4"
    then have "int (length (file_read (files w) (prefix self @ str_int niter @ ''.raw''))) =
        int ?nx * int ?nx * int ?nz * 4" by simp
    with assms(4) d show False by simp
  qed
  from read_image_bad_length [OF d assms(3) this] show ?thesis .
qed

theorem wrong_length_file_example:
  "(0::int) \<le> img_nvoxels_xy ex_self \<and> 0 \<le> img_nvoxels_z ex_self \<and>
   path_isfile (files ex_world) (prefix ex_self @ str_int 4 @ ''.raw'') \<and>
   read_image ex_self 4 ex_world =
     (Inr \<lparr>shape = [2, 2, 3], dtype = Float64, cdata = replicate 12 f_zero\<rparr>,
      ex_world\<lparr>stdout := [''Read 1 bytes'', ''ERROR: unexpected data length 1'']\<rparr>)"
proof -
  have h: "0 \<le> img_nvoxels_xy ex_self" "0 \<le> img_nvoxels_z ex_self"
    "path_isfile (files ex_world) (prefix ex_self @ str_int 4 @ ''.raw'')"
    "int (length (file_read (files ex_world) (prefix ex_self @ str_int 4 @ ''.raw''))) \<noteq>
       img_nvoxels_xy ex_self * img_nvoxels_xy ex_self * img_nvoxels_z ex_self * 4"
    by code_simp+
  have e: "nat (img_nvoxels_xy ex_self) = 2" "nat (img_nvoxels_z ex_self) = 3"
    "str_nat (length (file_read (files ex_world) (prefix ex_self @ str_int 4 @ ''.raw''))) = ''1''"
    "stdout ex_world = []"
    by code_simp+
  from wrong_length_file_gives_zero_image [OF h] h(1-3) show ?thesis
    by (simp add: e print_def)
qed

text \<open>
  C2 as stated fails: the file of iteration 4 has one byte where 48 are expected, and the
  call returns an array, the image of zeros.
\<close>

theorem wrong_length_file_is_not_an_error:
  "path_isfile (files ex_world) ''out/mlem4.raw'' \<and>
   length (file_read (files ex_world) ''out/mlem4.raw'') = 1 \<and>
   img_nvoxels_xy ex_self * img_nvoxels_xy ex_self * img_nvoxels_z ex_self * 4 = 48 \<and>
   fst (read_image ex_self 4 ex_world) =
     Inr \<lparr>shape = [2, 2, 3], dtype = Float64, cdata = replicate 12 f_zero\<rparr>"
  by code_simp

text \<open>
  C10. For every iteration number, when the file is absent or has an unexpected length,
  \<open>read_image\<close> returns normally, and what it returns is the array of zeros of the shape
  of the grid (the voxel counts being non-negative, so that the shape exists). The same
  array is returned for any stored image of the right length whose bytes are all zero:
  the caller cannot tell the two apart by the result. No call of \<open>read_image\<close> ends in
  an exception, whatever the iteration number and the files are.
\<close>

theorem read_image_never_signals:
  assumes "0 \<le> img_nvoxels_xy self" "0 \<le> img_nvoxels_z self"
    and "\<not> path_isfile (files w) (prefix self @ str_int niter @ ''.raw'') \<or>
         int (length (file_read (files w) (prefix self @ str_int niter @ ''.raw''))) \<noteq>
           img_nvoxels_xy self * img_nvoxels_xy self * img_nvoxels_z self * 4"
  shows "fst (read_image self niter w) =
           Inr \<lparr>shape = [nat (img_nvoxels_xy self), nat (img_nvoxels_xy self),
                         nat (img_nvoxels_z self)],
                dtype = Float64,
                cdata = replicate (nat (img_nvoxels_xy self) * nat (img_nvoxels_xy self) *
                                   nat (img_nvoxels_z self)) f_zero\<rparr> \<and>
         (\<forall>niter' w'.
            path_isfile (files w') (prefix self @ str_int niter' @ ''.raw'') \<and>
            file_read (files w') (prefix self @ str_int niter' @ ''.raw'') =
              replicate (4 * (nat (img_nvoxels_xy self) * nat (img_nvoxels_xy self) *
                              nat (img_nvoxels_z self))) 0
            \<longrightarrow> fst (read_image self niter' w') = fst (read_image self niter w)) \<and>
         (\<forall>niter' w'. \<not> isl (fst (read_image self niter' w')))"
proof -
  let ?nx = "nat (img_nvoxels_xy self)" and ?nz = "nat (img_nvoxels_z self)"
  let ?f = "prefix self @ str_int niter @ ''.raw''"
  have d: "img_nvoxels_xy self = int ?nx" "img_nvoxels_z self = int ?nz"
    using assms(1,2) by simp_all
  have z: "fst (read_image self niter w) =
      Inr \<lparr>shape = [?nx, ?nx, ?nz], dtype = Float64, cdata = replicate (?nx * ?nx * ?nz) f_zero\<rparr>"
  proof (cases "path_isfile (files w) ?f")
    case False
    from read_image_absent [OF d this] show ?thesis by simp
  next
    case True
    with assms(3) have "int (length (file_read (files w) ?f)) \<noteq> int ?nx * int ?nx * int ?nz * 4"
      using d by simp
    then have "length (file_read (files w) ?f) \<noteq> ?nx * ?nx * ?nz * 4"
      by (metis of_nat_mult of_nat_numeral)
    from read_image_bad_length [OF d True this] show ?thesis by simp
  qed
  moreover have "fst (read_image self niter' w') = fst (read_image self niter w)"
    if "path_isfile (files w') (prefix self @ str_int niter' @ ''.raw'')"
      "file_read (files w') (prefix self @ str_int niter' @ ''.raw'') =
         replicate (4 * (?nx * ?nx * ?nz)) 0" for niter' w'
    using read_image_zero_file [OF d that] z by simp
  moreover have "\<not> isl (fst (read_image self niter' w'))" for niter' w'
  proof (cases "path_isfile (files w') (prefix self @ str_int niter' @ ''.raw'')")
    case False
    from read_image_absent [OF d this] show ?thesis by simp
  next
    case True
    show ?thesis
    proof (cases "length (file_read (files w') (prefix self @ str_int niter' @ ''.raw'')) =
        ?nx * ?nx * ?nz * 4")
      case False
      from read_image_bad_length [OF d True this] show ?thesis by simp
    next
      case len: True
      from read_image_valid [OF d True len] show ?thesis by auto
    qed
  qed
  ultimately show ?thesis by blast
qed

theorem read_image_never_signals_example:
  "fst (read_image ex_self 5 ex_world) =
     Inr \<lparr>shape = [2, 2, 3], dtype = Float64, cdata = replicate 12 f_zero\<rparr> \<and>
   fst (read_image ex_self 4 ex_world) =
     Inr \<lparr>shape = [2, 2, 3], dtype = Float64, cdata = replicate 12 f_zero\<rparr> \<and>
   fst (read_image ex_self 0 ex_world) = fst (read_image ex_self 5 ex_world)"
proof -
  have h: "0 \<le> img_nvoxels_xy ex_self" "0 \<le> img_nvoxels_z ex_self"
    by code_simp+
  have a5: "\<not> path_isfile (files ex_world) (prefix ex_self @ str_int 5 @ ''.raw'') \<or>
         int (length (file_read (files ex_world) (prefix ex_self @ str_int 5 @ ''.raw''))) \<noteq>
           img_nvoxels_xy ex_self * img_nvoxels_xy ex_self * img_nvoxels_z ex_self * 4"
    by code_simp
  have a4: "\<not> path_isfile (files ex_world) (prefix ex_self @ str_int 4 @ ''.raw'') \<or>
         int (length (file_read (files ex_world) (prefix ex_self @ str_int 4 @ ''.raw''))) \<noteq>
           img_nvoxels_xy ex_self * img_nvoxels_xy ex_self * img_nvoxels_z ex_self * 4"
    by code_simp
  have z: "path_isfile (files ex_world) (prefix ex_self @ str_int 0 @ ''.raw'')"
    "file_read (files ex_world) (prefix ex_self @ str_int 0 @ ''.raw'') =
       replicate (4 * (nat (img_nvoxels_xy ex_self) * nat (img_nvoxels_xy ex_self) *
                       nat (img_nvoxels_z ex_self))) 0"
    by code_simp+
  have e: "nat (img_nvoxels_xy ex_self) = 2" "nat (img_nvoxels_z ex_self) = 3"
    by code_simp+
  from read_image_never_signals [OF h a5] read_image_never_signals [OF h a4] z
  show ?thesis by (simp add: e)
qed

subsection \<open>The sensitivity matrix handed to the library\<close>

text \<open>
  C7. In every call that \<open>reconstruct\<close> makes to the library, the flat sensitivity
  array holds \<open>smatrix[i,j,k]\<close> at position \<open>i + j*nx + k*nx*ny\<close>, for a matrix of shape
  \<open>(nx, ny, nz)\<close> and every index in range: the same layout as the image, \<open>x\<close> fastest.
\<close>

theorem sensitivity_passed_x_fastest:
  assumes "shape (smatrix self) = [nx, ny, nz]" and "i < nx" "j < ny" "k < nz"
    and "a \<in> set (drop (length (engine_calls w))
                   (engine_calls (snd (reconstruct eng self x1 y1 z1 t1 x2 y2 z2 t2 w))))"
  shows "getitem (smatrix self) [i, j, k] = Inr (arg_smat a ! (i + j * nx + k * nx * ny))"
proof -
  from assms(5) reconstruct_calls [of eng self x1 y1 z1 t1 x2 y2 z2 t2 w]
  have a: "arg_smat a = flatten_F (smatrix self)" by auto
  have "i + j * nx + k * nx * ny < length (f_indices [nx, ny, nz])"
    using flat_index_bound [OF assms(2-4)]
    by (simp del: f_indices.simps add: length_f_indices mult.assoc)
  then have "flatten_F (smatrix self) ! (i + j * nx + k * nx * ny) =
      cdata (smatrix self) ! c_offset [nx, ny, nz] (f_indices [nx, ny, nz] ! (i + j * nx + k * nx * ny)) 0"
    by (simp del: f_indices.simps add: flatten_F_def assms(1))
  also have "\<dots> = cdata (smatrix self) ! c_offset [nx, ny, nz] [i, j, k] 0"
    by (simp only: f_indices_3 [OF assms(2-4)])
  finally show ?thesis
    using assms(1-4) a by (simp add: getitem_def)
qed

theorem sensitivity_passed_x_fastest_example:
  "shape (smatrix ex_self) = [2, 2, 3] \<and>
   engine_calls (snd (reconstruct ex_engine ex_self [] [] [] [] [] [] [] [] ex_world)) \<noteq> [] \<and>
   arg_smat (hd (engine_calls (snd (reconstruct ex_engine ex_self [] [] [] [] [] [] [] [] ex_world))))
     = [1, 7, 4, 10, 2, 8, 5, 11, 3, 9, 6, 12] \<and>
   getitem (smatrix ex_self) [1, 0, 2] =
     Inr (arg_smat (hd (engine_calls (snd (reconstruct ex_engine ex_self [] [] [] [] [] [] [] [] ex_world))))
            ! (1 + 0 * 2 + 2 * 2 * 2))"
proof -
  let ?a = "hd (engine_calls (snd (reconstruct ex_engine ex_self [] [] [] [] [] [] [] [] ex_world)))"
  have s: "shape (smatrix ex_self) = [2, 2, 3]"
    by code_simp
  have n: "engine_calls (snd (reconstruct ex_engine ex_self [] [] [] [] [] [] [] [] ex_world)) \<noteq> []"
    by code_simp
  have v: "arg_smat ?a = [1, 7, 4, 10, 2, 8, 5, 11, 3, 9, 6, 12]"
    by code_simp
  have e: "engine_calls ex_world = []"
    by code_simp
  have m: "?a \<in> set (drop (length (engine_calls ex_world))
      (engine_calls (snd (reconstruct ex_engine ex_self [] [] [] [] [] [] [] [] ex_world))))"
    using n by (simp add: e)
  have b: "(1::nat) < 2" "(0::nat) < 2" "(2::nat) < 3"
    by simp_all
  from sensitivity_passed_x_fastest [OF s b m] s n v show ?thesis
    by blast
qed

text \<open>
  C5. The check of the sensitivity matrix compares the number of elements of the
  flattened matrix with the number of voxels, not the shape with the grid (its message
  speaks of dimensions): whenever the two numbers agree, the library is called with the
  flattened matrix. The concrete case is a matrix of shape 3 x 2 x 2 for a grid of
  2 x 2 x 3 voxels, which reaches the library and yields an image.
\<close>

theorem sensitivity_check_compares_sizes_only:
  assumes "path_exists (files w) (folder_path_of (prefix self))"
    and "length y1 = length x1 \<and> length z1 = length x1 \<and> length t1 = length x1 \<and>
         length x2 = length x1 \<and> length y2 = length x1 \<and> length z2 = length x1 \<and>
         length t2 = length x1"
    and "int (prod_list (shape (smatrix self))) =
           img_nvoxels_xy self * img_nvoxels_xy self * img_nvoxels_z self"
  shows "\<exists>a. engine_calls (snd (reconstruct eng self x1 y1 z1 t1 x2 y2 z2 t2 w)) =
               engine_calls w @ [a] \<and>
             arg_smat a = flatten_F (smatrix self)"
  using assms by (rule reconstruct_calls_sizes)

theorem wrong_shape_reaches_the_library:
  "shape (smatrix (ex_self\<lparr>smatrix := ex_transposed\<rparr>)) = [3, 2, 2] \<and>
   [nat (img_nvoxels_xy ex_self), nat (img_nvoxels_xy ex_self), nat (img_nvoxels_z ex_self)] = [2, 2, 3] \<and>
   map arg_smat (engine_calls (snd (reconstruct ex_engine (ex_self\<lparr>smatrix := ex_transposed\<rparr>)
       [] [] [] [] [] [] [] [] ex_world))) = [[1, 5, 9, 3, 7, 11, 2, 6, 10, 4, 8, 12]] \<and>
   fst (reconstruct ex_engine (ex_self\<lparr>smatrix := ex_transposed\<rparr>) [] [] [] [] [] [] [] [] ex_world) =
     Inr (Some \<lparr>shape = [2, 2, 3], dtype = Float64,
                cdata = [1, 5, 9, 3, 7, 11, 2, 6, 10, 4, 8, 12]\<rparr>)"
proof -
  let ?self = "ex_self\<lparr>smatrix := ex_transposed\<rparr>"
  have h: "path_exists (files ex_world) (folder_path_of (prefix ?self))"
    "length ([]::real list) = length ([]::real list) \<and> length ([]::real list) = length ([]::real list) \<and>
     length ([]::real list) = length ([]::real list) \<and> length ([]::real list) = length ([]::real list) \<and>
     length ([]::real list) = length ([]::real list) \<and> length ([]::real list) = length ([]::real list) \<and>
     length ([]::real list) = length ([]::real list)"
    "int (prod_list (shape (smatrix ?self))) =
       img_nvoxels_xy ?self * img_nvoxels_xy ?self * img_nvoxels_z ?self"
    by code_simp+
  have v: "shape (smatrix ?self) = [3, 2, 2]"
    "[nat (img_nvoxels_xy ex_self), nat (img_nvoxels_xy ex_self), nat (img_nvoxels_z ex_self)] = [2, 2, 3]"
    "flatten_F (smatrix ?self) = [1, 5, 9, 3, 7, 11, 2, 6, 10, 4, 8, 12]"
    "engine_calls ex_world = []"
    "fst (reconstruct ex_engine ?self [] [] [] [] [] [] [] [] ex_world) =
       Inr (Some \<lparr>shape = [2, 2, 3], dtype = Float64,
                  cdata = [1, 5, 9, 3, 7, 11, 2, 6, 10, 4, 8, 12]\<rparr>)"
    by code_simp+
  from sensitivity_check_compares_sizes_only [OF h, of ex_engine] v show ?thesis
    by auto
qed

subsection \<open>The layout of the image\<close>

text \<open>
  C6. For a voxel \<open>(i, j, k)\<close> of the grid, the index arithmetic of the loop maps
  \<open>ivox = i + j*nx + k*nx*ny\<close> back to \<open>(i, j, k)\<close>. Hence \<open>read_image\<close> puts the float
  stored at bytes \<open>4*ivox .. 4*ivox+3\<close> of a file of the right length at position
  \<open>[i,j,k]\<close> of the image, and \<open>reconstruct\<close> puts there the float at offset \<open>ivox\<close> of
  the library's result.
\<close>

theorem flat_index_round_trip:
  assumes "i < nx" "j < ny" "k < nz"
  shows "voxel_of nx ny (i + j * nx + k * nx * ny) = [i, j, k] \<and>
         (img_nvoxels_xy self = int nx \<and> ny = nx \<and> img_nvoxels_z self = int nz \<and>
          path_isfile (files w) (prefix self @ str_int niter @ ''.raw'') \<and>
          length (file_read (files w) (prefix self @ str_int niter @ ''.raw'')) = nx * nx * nz * 4
          \<longrightarrow> (\<exists>img. fst (read_image self niter w) = Inr img \<and>
                 getitem img [i, j, k] =
                   Inr (float_of_bytes (take 4 (drop (4 * (i + j * nx + k * nx * ny))
                          (file_read (files w) (prefix self @ str_int niter @ ''.raw''))))))) \<and>
         (img_nvoxels_xy self = int nx \<and> ny = nx \<and> img_nvoxels_z self = int nz \<and>
          path_exists (files w) (folder_path_of (prefix self)) \<and>
          (length y1 = length x1 \<and> length z1 = length x1 \<and> length t1 = length x1 \<and>
           length x2 = length x1 \<and> length y2 = length x1 \<and> length z2 = length x1 \<and>
           length t2 = length x1) \<and>
          prod_list (shape (smatrix self)) = nx * nx * nz
          \<longrightarrow> (\<exists>img a. fst (reconstruct eng self x1 y1 z1 t1 x2 y2 z2 t2 w) = Inr (Some img) \<and>
                 engine_calls (snd (reconstruct eng self x1 y1 z1 t1 x2 y2 z2 t2 w)) =
                   engine_calls w @ [a] \<and>
                 getitem img [i, j, k] =
                   Inr (fst (eng a (files w)) (i + j * nx + k * nx * ny))))"
proof (intro conjI impI)
  show "voxel_of nx ny (i + j * nx + k * nx * ny) = [i, j, k]"
    using assms(1,2) by (rule voxel_of_flat)
next
  assume a: "img_nvoxels_xy self = int nx \<and> ny = nx \<and> img_nvoxels_z self = int nz \<and>
      path_isfile (files w) (prefix self @ str_int niter @ ''.raw'') \<and>
      length (file_read (files w) (prefix self @ str_int niter @ ''.raw'')) = nx * nx * nz * 4"
  then have "img_nvoxels_xy self = int nx" "img_nvoxels_z self = int nz"
    "path_isfile (files w) (prefix self @ str_int niter @ ''.raw'')"
    "length (file_read (files w) (prefix self @ str_int niter @ ''.raw'')) = nx * nx * nz * 4"
    by simp_all
  from read_image_valid [OF this] a assms
  show "\<exists>img. fst (read_image self niter w) = Inr img \<and>
      getitem img [i, j, k] =
        Inr (float_of_bytes (take 4 (drop (4 * (i + j * nx + k * nx * ny))
               (file_read (files w) (prefix self @ str_int niter @ ''.raw'')))))"
    by auto
next
  assume a: "img_nvoxels_xy self = int nx \<and> ny = nx \<and> img_nvoxels_z self = int nz \<and>
      path_exists (files w) (folder_path_of (prefix self)) \<and>
      (length y1 = length x1 \<and> length z1 = length x1 \<and> length t1 = length x1 \<and>
       length x2 = length x1 \<and> length y2 = length x1 \<and> length z2 = length x1 \<and>
       length t2 = length x1) \<and>
      prod_list (shape (smatrix self)) = nx * nx * nz"
  then have "img_nvoxels_xy self = int nx" "img_nvoxels_z self = int nz"
    "path_exists (files w) (folder_path_of (prefix self))"
    "length y1 = length x1 \<and> length z1 = length x1 \<and> length t1 = length x1 \<and>
     length x2 = length x1 \<and> length y2 = length x1 \<and> length z2 = length x1 \<and>
     length t2 = length x1"
    "prod_list (shape (smatrix self)) = nx * nx * nz"
    by simp_all
  from reconstruct_valid [OF this, of eng] obtain a' img where
    r: "reconstruct eng self x1 y1 z1 t1 x2 y2 z2 t2 w =
          (Inr (Some img),
           w\<lparr>files := snd (eng a' (files w)), engine_calls := engine_calls w @ [a']\<rparr>)" and
    g: "\<forall>i j k. i < nx \<and> j < nx \<and> k < nz \<longrightarrow>
          getitem img [i, j, k] = Inr (fst (eng a' (files w)) (i + j * nx + k * nx * nx))"
    by blast
  from g a assms have "getitem img [i, j, k] = Inr (fst (eng a' (files w)) (i + j * nx + k * nx * ny))"
    by simp
  with r show "\<exists>img a. fst (reconstruct eng self x1 y1 z1 t1 x2 y2 z2 t2 w) = Inr (Some img) \<and>
      engine_calls (snd (reconstruct eng self x1 y1 z1 t1 x2 y2 z2 t2 w)) = engine_calls w @ [a] \<and>
      getitem img [i, j, k] = Inr (fst (eng a (files w)) (i + j * nx + k * nx * ny))"
    by (intro exI [of _ img] exI [of _ a']) simp
qed

theorem flat_index_round_trip_example:
  "voxel_of 2 2 (1 + 0 * 2 + 2 * 2 * 2) = [1, 0, 2] \<and>
   (\<exists>img. fst (read_image ex_self 3 ex_world) = Inr img \<and> getitem img [1, 0, 2] = Inr 10) \<and>
   (\<exists>img. fst (reconstruct ex_engine ex_self [] [] [] [] [] [] [] [] ex_world) = Inr (Some img) \<and>
          getitem img [1, 0, 2] = Inr 10)"
proof -
  have b: "(1::nat) < 2" "(0::nat) < 2" "(2::nat) < 3"
    by simp_all
  have h1: "img_nvoxels_xy ex_self = int 2 \<and> (2::nat) = 2 \<and> img_nvoxels_z ex_self = int 3 \<and>
      path_isfile (files ex_world) (prefix ex_self @ str_int 3 @ ''.raw'') \<and>
      length (file_read (files ex_world) (prefix ex_self @ str_int 3 @ ''.raw'')) = 2 * 2 * 3 * 4"
    by code_simp
  have h2: "img_nvoxels_xy ex_self = int 2 \<and> (2::nat) = 2 \<and> img_nvoxels_z ex_self = int 3 \<and>
      path_exists (files ex_world) (folder_path_of (prefix ex_self)) \<and>
      (length ([]::real list) = length ([]::real list) \<and> length ([]::real list) = length ([]::real list) \<and>
       length ([]::real list) = length ([]::real list) \<and> length ([]::real list) = length ([]::real list) \<and>
       length ([]::real list) = length ([]::real list) \<and> length ([]::real list) = length ([]::real list) \<and>
       length ([]::real list) = length ([]::real list)) \<and>
      prod_list (shape (smatrix ex_self)) = 2 * 2 * 3"
    by code_simp
  have v1: "float_of_bytes (take 4 (drop (4 * (1 + 0 * 2 + 2 * 2 * 2))
      (file_read (files ex_world) (prefix ex_self @ str_int 3 @ ''.raw'')))) = 10"
    by code_simp
  have v2: "fst (ex_engine a fs) (1 + 0 * 2 + 2 * 2 * 2) = 10" for a fs
    by (simp add: ex_engine_def)
  note t = flat_index_round_trip [OF b, of ex_self ex_world 3 "[]" "[]" "[]" "[]" "[]" "[]" "[]" "[]" ex_engine]
  from t have c1: "voxel_of 2 2 (1 + 0 * 2 + 2 * 2 * 2) = [1, 0, 2]"
    by (rule conjunct1)
  from t h1 have c2: "\<exists>img. fst (read_image ex_self 3 ex_world) = Inr img \<and>
      getitem img [1, 0, 2] = Inr (float_of_bytes (take 4 (drop (4 * (1 + 0 * 2 + 2 * 2 * 2))
        (file_read (files ex_world) (prefix ex_self @ str_int 3 @ ''.raw'')))))"
    by blast
  from t h2 have c3: "\<exists>img a. fst (reconstruct ex_engine ex_self [] [] [] [] [] [] [] [] ex_world) = Inr (Some img) \<and>
      engine_calls (snd (reconstruct ex_engine ex_self [] [] [] [] [] [] [] [] ex_world)) =
        engine_calls ex_world @ [a] \<and>
      getitem img [1, 0, 2] = Inr (fst (ex_engine a (files ex_world)) (1 + 0 * 2 + 2 * 2 * 2))"
    by blast
  from c1 c2 [unfolded v1] c3 [unfolded v2] show ?thesis
    by blast
qed

end
